theory Spec2Isabelle
  imports Main
begin

section \<open>Strings of the JavaScript runtime\<close>

text \<open>
  Strings are byte lists. The component only inspects and builds ASCII text (decimal
  digits, radix-36 digits, the base-32 alphabet), and every test below gives the same
  answer on a UTF-16 string and on its UTF-8 bytes: a byte of a non-ASCII character is
  never a digit or a letter.
\<close>

definition digits :: string where
  "digits = ''0123456789''"

definition lower :: string where
  "lower = ''abcdefghijklmnopqrstuvwxyz''"

definition upper :: string where
  "upper = ''ABCDEFGHIJKLMNOPQRSTUVWXYZ''"

text \<open>\<^verbatim>\<open>/^\d+$/.test(s)\<close>: one or more characters, all of them decimal digits.\<close>

definition all_digits :: "string \<Rightarrow> bool" where
  "all_digits s = (s \<noteq> [] \<and> list_all (\<lambda>c. c \<in> set digits) s)"

text \<open>\<^verbatim>\<open>s.charAt(i)\<close>: the one-character string at index \<open>i\<close>, the empty string out of range.\<close>

definition charAt :: "string \<Rightarrow> nat \<Rightarrow> string" where
  "charAt s i = (if i < length s then [s ! i] else [])"

text \<open>
  \<^verbatim>\<open>s.substring(a, b)\<close>: both indices are clamped to the length of the string and
  swapped when the first is the larger.
\<close>

definition substring :: "nat \<Rightarrow> nat \<Rightarrow> string \<Rightarrow> string" where
  "substring a b s =
     (let a' = min a (length s); b' = min b (length s);
          lo = min a' b'; hi = max a' b'
      in take (hi - lo) (drop lo s))"

text \<open>\<^verbatim>\<open>s.toUpperCase()\<close> on ASCII: the letters a to z are mapped to A to Z.\<close>

definition toUpperChar :: "char \<Rightarrow> char" where
  "toUpperChar c = (case map_of (zip lower upper) c of Some C \<Rightarrow> C | None \<Rightarrow> c)"

definition toUpperCase :: "string \<Rightarrow> string" where
  "toUpperCase s = map toUpperChar s"

text \<open>
  \<^verbatim>\<open>encodeURIComponent(s)\<close>: letters, digits and \<^verbatim>\<open>- _ . ! ~ * ' ( )\<close> are kept,
  every other byte of the UTF-8 encoding becomes \<^verbatim>\<open>%XX\<close> in upper-case hexadecimal.
\<close>

definition uri_unreserved :: string where
  "uri_unreserved = upper @ lower @ digits @ ''-_.!~*()'' @ [CHR 0x27]"

definition hex_digit :: "nat \<Rightarrow> char" where
  "hex_digit n = ''0123456789ABCDEF'' ! (n mod 16)"

definition encodeURIChar :: "char \<Rightarrow> string" where
  "encodeURIChar c =
     (if c \<in> set uri_unreserved then [c]
      else [CHR ''%'', hex_digit ((of_char c :: nat) div 16), hex_digit (of_char c)])"

definition encodeURIComponent :: "string \<Rightarrow> string" where
  "encodeURIComponent s = concat (map encodeURIChar s)"

section \<open>Secret and backup-code generation\<close>

text \<open>
  \<^verbatim>\<open>Math.random()\<close> belongs to the runtime. \<open>generateSecret\<close> reads of the i-th draw
  only \<^verbatim>\<open>Math.floor(Math.random() * chars.length)\<close>, a natural number, and
  \<open>generateBackupCodes\<close> reads of it only \<^verbatim>\<open>Math.random().toString(36)\<close>, a string;
  the two functions take these readings as their random stream.
\<close>

definition chars :: string where
  "chars = ''ABCDEFGHIJKLMNOPQRSTUVWXYZ234567''"

function generateSecret_loop :: "(nat \<Rightarrow> nat) \<Rightarrow> nat \<Rightarrow> string \<Rightarrow> string" where
  "generateSecret_loop rnd i result =
     (if i < 32 then generateSecret_loop rnd (Suc i) (result @ charAt chars (rnd i))
      else result)"
  by pat_completeness auto
termination
  by (relation "measure (\<lambda>(rnd, i, result). 32 - i)") auto

declare generateSecret_loop.simps [simp del]

definition generateSecret :: "(nat \<Rightarrow> nat) \<Rightarrow> string" where
  "generateSecret rnd = generateSecret_loop rnd 0 []"

definition generateQRCode :: "string \<Rightarrow> string \<Rightarrow> string" where
  "generateQRCode email s =
     (let otpauth = ''otpauth://totp/Calmora:'' @ email @ ''?secret='' @ s @ ''&issuer=Calmora''
      in ''https://api.qrserver.com/v1/create-qr-code/?size=200x200&data=''
           @ encodeURIComponent otpauth)"

text \<open>One backup code, from the radix-36 rendering of one draw.\<close>

definition backup_code :: "string \<Rightarrow> string" where
  "backup_code r36 = toUpperCase (substring 2 10 r36)"

function generateBackupCodes_loop ::
    "(nat \<Rightarrow> string) \<Rightarrow> nat \<Rightarrow> string list \<Rightarrow> string list" where
  "generateBackupCodes_loop rnd i codes =
     (if i < 8 then generateBackupCodes_loop rnd (Suc i) (codes @ [backup_code (rnd i)])
      else codes)"
  by pat_completeness auto
termination
  by (relation "measure (\<lambda>(rnd, i, codes). 8 - i)") auto

declare generateBackupCodes_loop.simps [simp del]

definition generateBackupCodes :: "(nat \<Rightarrow> string) \<Rightarrow> string list" where
  "generateBackupCodes rnd = generateBackupCodes_loop rnd 0 []"

text \<open>
  What the runtime returns for \<^verbatim>\<open>x.toString(36)\<close> when \<open>0 \<le> x < 1\<close>: the string
  \<^verbatim>\<open>0\<close> for zero, and otherwise \<^verbatim>\<open>0.\<close> followed by at least one radix-36 digit
  (no exponent is used for a radix other than ten). For instance \<^verbatim>\<open>(0.5).toString(36)\<close>
  is \<^verbatim>\<open>0.i\<close>, since 18/36 = 1/2.
\<close>

definition is_radix36 :: "string \<Rightarrow> bool" where
  "is_radix36 s =
     (s = ''0'' \<or>
      (take 2 s = ''0.'' \<and> drop 2 s \<noteq> [] \<and> list_all (\<lambda>c. c \<in> set (digits @ lower)) (drop 2 s)))"

section \<open>The user_2fa table and the storage service\<close>

text \<open>
  Modelled from the spec: the declaration of the table \<^verbatim>\<open>user_2fa\<close>, whose migration is
  not among the sources. There is at most one row per user, keyed by \<^verbatim>\<open>user_id\<close>; the
  secret is null until enrolment has started and the backup codes are empty until the
  record is enabled (an unset column is the empty list).
\<close>

type_synonym user_id = string

record row_2fa =
  secret :: "string option"
  is_enabled :: bool
  backup_codes :: "string list"

type_synonym table_2fa = "user_id \<rightharpoonup> row_2fa"

text \<open>
  A request to the storage service is answered with \<^verbatim>\<open>{ data, error }\<close>, or the awaited
  promise is rejected. How the service behaves for one request is an input of each
  operation; a request that fails is not applied to the table.
\<close>

datatype fault = Healthy | Fails string | Throws string

datatype 'a outcome = Success 'a | ErrorReply string | Rejected string

definition request :: "fault \<Rightarrow> 'a \<Rightarrow> 'a outcome" where
  "request f d = (case f of Healthy \<Rightarrow> Success d | Fails e \<Rightarrow> ErrorReply e | Throws e \<Rightarrow> Rejected e)"

text \<open>\<^verbatim>\<open>.select('is_enabled').eq('user_id', k).maybeSingle()\<close>: null when there is no row.\<close>

definition select_is_enabled :: "fault \<Rightarrow> table_2fa \<Rightarrow> user_id \<Rightarrow> bool option outcome" where
  "select_is_enabled f t k = request f (map_option is_enabled (t k))"

text \<open>
  \<^verbatim>\<open>.upsert({ user_id: k, secret: s, is_enabled: false })\<close>: inserts the row, or
  overwrites the two given columns of the row that is there. On success the new table is
  the data.
\<close>

definition upsert_secret :: "fault \<Rightarrow> table_2fa \<Rightarrow> user_id \<Rightarrow> string \<Rightarrow> table_2fa outcome" where
  "upsert_secret f t k s =
     request f (t(k \<mapsto> (case t k of
                            None \<Rightarrow> \<lparr>secret = Some s, is_enabled = False, backup_codes = []\<rparr>
                          | Some r \<Rightarrow> r\<lparr>secret := Some s, is_enabled := False\<rparr>)))"

text \<open>
  \<^verbatim>\<open>.update(...).eq('user_id', k)\<close>: changes the row of \<open>k\<close> when there is one; with no
  such row nothing is written and no error is reported.
\<close>

definition update_where ::
    "fault \<Rightarrow> table_2fa \<Rightarrow> user_id \<Rightarrow> (row_2fa \<Rightarrow> row_2fa) \<Rightarrow> table_2fa outcome" where
  "update_where f t k g = request f (case t k of None \<Rightarrow> t | Some r \<Rightarrow> t(k \<mapsto> g r))"

section \<open>The TwoFactor component\<close>

datatype variant = Default | Destructive

record toast =
  variant :: variant
  title :: string
  description :: string

record auth_user =
  uid :: user_id
  email :: string

text \<open>
  The state the operations read and write: the React state of the component, the table
  behind the storage service, the toasts shown and the lines written to the console.
\<close>

record app =
  isEnabled :: bool
  isEnabling :: bool
  isDisabling :: bool
  verificationCode :: string
  qrCodeUrl :: string
  backupCodes :: "string list"
  showSetup :: bool
  loading :: bool
  user_2fa :: table_2fa
  toasts :: "toast list"
  console :: "(string \<times> string) list"

text \<open>The component as it is mounted: the \<^verbatim>\<open>useState\<close> defaults, over a table \<open>t\<close>.\<close>

definition mounted :: "table_2fa \<Rightarrow> app" where
  "mounted t =
     \<lparr>isEnabled = False, isEnabling = False, isDisabling = False, verificationCode = [],
      qrCodeUrl = [], backupCodes = [], showSetup = False, loading = True,
      user_2fa = t, toasts = [], console = []\<rparr>"

definition add_toast :: "variant \<Rightarrow> string \<Rightarrow> string \<Rightarrow> app \<Rightarrow> app" where
  "add_toast v ti d w = w\<lparr>toasts := toasts w @ [\<lparr>variant = v, title = ti, description = d\<rparr>]\<rparr>"

definition console_error :: "string \<Rightarrow> string \<Rightarrow> app \<Rightarrow> app" where
  "console_error label e w = w\<lparr>console := console w @ [(label, e)]\<rparr>"

text \<open>
  \<open>checkTwoFactorStatus\<close>: without a user it returns at once; otherwise the \<^verbatim>\<open>finally\<close>
  block clears \<open>loading\<close> on every path.
\<close>

definition checkTwoFactorStatus :: "auth_user option \<Rightarrow> fault \<Rightarrow> app \<Rightarrow> app" where
  "checkTwoFactorStatus usr f w =
     (case usr of
        None \<Rightarrow> w
      | Some u \<Rightarrow>
          (let w' = (case select_is_enabled f (user_2fa w) (uid u) of
                       ErrorReply e \<Rightarrow> console_error ''Error checking 2FA status:'' e w
                     | Rejected e \<Rightarrow> console_error ''Error checking 2FA status:'' e w
                     | Success data \<Rightarrow>
                         w\<lparr>isEnabled := (case data of None \<Rightarrow> False | Some b \<Rightarrow> b)\<rparr>)
           in w'\<lparr>loading := False\<rparr>))"

definition enableTwoFactor :: "auth_user option \<Rightarrow> (nat \<Rightarrow> nat) \<Rightarrow> fault \<Rightarrow> app \<Rightarrow> app" where
  "enableTwoFactor usr rnd f w =
     (case usr of
        None \<Rightarrow> w
      | Some u \<Rightarrow>
          (let w1 = w\<lparr>isEnabling := True\<rparr>;
               s = generateSecret rnd;
               qrCode = generateQRCode (email u) s;
               w2 = w1\<lparr>qrCodeUrl := qrCode, showSetup := True\<rparr>;
               w3 = (case upsert_secret f (user_2fa w2) (uid u) s of
                       Success t \<Rightarrow>
                         add_toast Default ''Setup started''
                           ''Scan the QR code with your authenticator app'' (w2\<lparr>user_2fa := t\<rparr>)
                     | ErrorReply e \<Rightarrow> add_toast Destructive ''Setup failed'' e w2
                     | Rejected e \<Rightarrow> add_toast Destructive ''Setup failed'' e w2)
           in w3\<lparr>isEnabling := False\<rparr>))"

text \<open>
  The \<^verbatim>\<open>try\<close> block of \<open>verifyAndEnable\<close>: \<open>Inl\<close> carries the message of the error
  thrown, \<open>Inr\<close> the table after the update and the codes generated.
\<close>

definition verifyAndEnable_try ::
    "auth_user \<Rightarrow> (nat \<Rightarrow> string) \<Rightarrow> fault \<Rightarrow> app \<Rightarrow> string + table_2fa \<times> string list" where
  "verifyAndEnable_try u rnd f w =
     (if length (verificationCode w) \<noteq> 6 \<or> \<not> all_digits (verificationCode w)
      then Inl ''Please enter a valid 6-digit code''
      else (let codes = generateBackupCodes rnd
            in case update_where f (user_2fa w) (uid u)
                      (\<lambda>r. r\<lparr>is_enabled := True, backup_codes := codes\<rparr>) of
                 Success t \<Rightarrow> Inr (t, codes)
               | ErrorReply e \<Rightarrow> Inl e
               | Rejected e \<Rightarrow> Inl e))"

definition verifyAndEnable :: "auth_user option \<Rightarrow> (nat \<Rightarrow> string) \<Rightarrow> fault \<Rightarrow> app \<Rightarrow> app" where
  "verifyAndEnable usr rnd f w =
     (case usr of
        None \<Rightarrow> w
      | Some u \<Rightarrow>
          if verificationCode w = [] then w
          else (case verifyAndEnable_try u rnd f w of
                  Inr (t, codes) \<Rightarrow>
                    add_toast Default ''2FA enabled successfully!''
                      ''Your account is now more secure. Save your backup codes.''
                      (w\<lparr>user_2fa := t, isEnabled := True, backupCodes := codes,
                         showSetup := False, verificationCode := []\<rparr>)
                | Inl msg \<Rightarrow> add_toast Destructive ''Verification failed'' msg w))"

text \<open>
  The input of the verification code:
  \<^verbatim>\<open>setVerificationCode(e.target.value.replace(/\D/g, '').slice(0, 6))\<close>.
\<close>

definition onChange_verificationCode :: "string \<Rightarrow> app \<Rightarrow> app" where
  "onChange_verificationCode v w =
     w\<lparr>verificationCode := take 6 (filter (\<lambda>c. c \<in> set digits) v)\<rparr>"

definition disableTwoFactor :: "auth_user option \<Rightarrow> fault \<Rightarrow> app \<Rightarrow> app" where
  "disableTwoFactor usr f w =
     (case usr of
        None \<Rightarrow> w
      | Some u \<Rightarrow>
          (let w1 = w\<lparr>isDisabling := True\<rparr>;
               w2 = (case update_where f (user_2fa w1) (uid u) (\<lambda>r. r\<lparr>is_enabled := False\<rparr>) of
                       Success t \<Rightarrow>
                         add_toast Default ''2FA disabled''
                           ''Two-factor authentication has been disabled for your account''
                           (w1\<lparr>user_2fa := t, isEnabled := False, backupCodes := []\<rparr>)
                     | ErrorReply e \<Rightarrow> add_toast Destructive ''Failed to disable 2FA'' e w1
                     | Rejected e \<Rightarrow> add_toast Destructive ''Failed to disable 2FA'' e w1)
           in w2\<lparr>isDisabling := False\<rparr>))"

section \<open>The lifecycle as the specification words it\<close>

datatype tfa_state = Disabled | PendingVerification | Enabled

text \<open>
  The state the specification derives from a persisted record: no record or a null
  secret is \<open>Disabled\<close>; a secret with \<open>is_enabled = false\<close> is \<open>PendingVerification\<close>;
  \<open>is_enabled = true\<close> is \<open>Enabled\<close>.
\<close>

definition spec_state :: "row_2fa option \<Rightarrow> tfa_state" where
  "spec_state rec =
     (case rec of
        None \<Rightarrow> Disabled
      | Some r \<Rightarrow>
          if secret r = None then Disabled
          else if \<not> is_enabled r then PendingVerification
          else Enabled)"

text \<open>Whether the record of a user gates login: there is one and it is enabled.\<close>

definition protected :: "table_2fa \<Rightarrow> user_id \<Rightarrow> bool" where
  "protected t k = (case t k of None \<Rightarrow> False | Some r \<Rightarrow> is_enabled r)"

text \<open>The record invariant of the specification.\<close>

definition record_invariant :: "row_2fa \<Rightarrow> bool" where
  "record_invariant r = (is_enabled r \<longrightarrow> secret r \<noteq> None \<and> backup_codes r \<noteq> [])"

text \<open>The toasts the component shows on success and on failure of a verification.\<close>

definition enabled_toast :: toast where
  "enabled_toast =
     \<lparr>variant = Default, title = ''2FA enabled successfully!'',
      description = ''Your account is now more secure. Save your backup codes.''\<rparr>"

definition verification_failed :: "string \<Rightarrow> toast" where
  "verification_failed msg =
     \<lparr>variant = Destructive, title = ''Verification failed'', description = msg\<rparr>"

section \<open>Operations as data, invariants and example states\<close>

text \<open>
  The four operations of the lifecycle, each with the inputs it reads, and the typing of
  a verification code. A run performs a list of them, each for the user signed in then.
\<close>

datatype operation =
    CheckStatus fault
  | StartEnrollment "nat \<Rightarrow> nat" fault
  | TypeCode string
  | ConfirmEnrollment "nat \<Rightarrow> string" fault
  | Disable fault

fun perform :: "auth_user option \<Rightarrow> operation \<Rightarrow> app \<Rightarrow> app" where
  "perform usr (CheckStatus f) w = checkTwoFactorStatus usr f w"
| "perform usr (StartEnrollment rnd f) w = enableTwoFactor usr rnd f w"
| "perform usr (TypeCode v) w = onChange_verificationCode v w"
| "perform usr (ConfirmEnrollment rnd f) w = verifyAndEnable usr rnd f w"
| "perform usr (Disable f) w = disableTwoFactor usr f w"

fun run :: "(auth_user option \<times> operation) list \<Rightarrow> app \<Rightarrow> app" where
  "run [] w = w"
| "run ((usr, x) # steps) w = run steps (perform usr x w)"

text \<open>
  The invariant the operations maintain: every record has a secret, and it satisfies the
  record invariant of the specification.
\<close>

definition enrolled_invariant :: "row_2fa \<Rightarrow> bool" where
  "enrolled_invariant r = (secret r \<noteq> None \<and> record_invariant r)"

definition table_invariant :: "table_2fa \<Rightarrow> bool" where
  "table_invariant t = (\<forall>k r. t k = Some r \<longrightarrow> enrolled_invariant r)"

text \<open>A user and the three kinds of record, for the examples below.\<close>

definition alice :: auth_user where
  "alice = \<lparr>uid = ''u1'', email = ''alice@example.org''\<rparr>"

definition unenrolled_row :: row_2fa where
  "unenrolled_row = \<lparr>secret = None, is_enabled = False, backup_codes = []\<rparr>"

definition pending_row :: row_2fa where
  "pending_row =
     \<lparr>secret = Some ''AAAAAAAAAAAAAAAAAAAAAAAAAAAAAAAA'', is_enabled = False, backup_codes = []\<rparr>"

definition enabled_row :: row_2fa where
  "enabled_row =
     \<lparr>secret = Some ''AAAAAAAAAAAAAAAAAAAAAAAAAAAAAAAA'', is_enabled = True,
      backup_codes = [''K3J9X0QA'', ''Z81MPL2C'', ''7TTRW4E5'', ''B6N0YH1D'',
                      ''Q2W3E4R5'', ''M9N8B7V6'', ''A1S2D3F4'', ''P0O9I8U7'']\<rparr>"

definition half_codes :: "string list" where
  "half_codes = [''I'', ''I'', ''I'', ''I'', ''I'', ''I'', ''I'', ''I'']"

section \<open>Helper lemmas on the generators\<close>

lemma generateBackupCodes_loop_map:
  "i \<le> 8 \<Longrightarrow>
   generateBackupCodes_loop rnd i codes = codes @ map (\<lambda>k. backup_code (rnd k)) [i..<8]"
proof (induction rnd i codes rule: generateBackupCodes_loop.induct)
  case (1 rnd i codes)
  show ?case
  proof (cases "i < 8")
    case True
    then have "generateBackupCodes_loop rnd i codes =
               generateBackupCodes_loop rnd (Suc i) (codes @ [backup_code (rnd i)])"
      by (simp add: generateBackupCodes_loop.simps [of rnd i])
    also have "\<dots> = (codes @ [backup_code (rnd i)]) @ map (\<lambda>k. backup_code (rnd k)) [Suc i..<8]"
      using True "1.IH" by simp
    also have "\<dots> = codes @ map (\<lambda>k. backup_code (rnd k)) [i..<8]"
      using True by (simp add: upt_conv_Cons)
    finally show ?thesis .
  next
    case False
    with "1.prems" have "i = 8" by simp
    then show ?thesis
      by (simp add: generateBackupCodes_loop.simps [of rnd 8])
  qed
qed

lemma generateBackupCodes_map:
  "generateBackupCodes rnd = map (\<lambda>k. backup_code (rnd k)) [0..<8]"
  by (simp add: generateBackupCodes_def generateBackupCodes_loop_map)

lemma length_generateBackupCodes: "length (generateBackupCodes rnd) = 8"
  by (simp add: generateBackupCodes_map)

lemma substring_2_10: "substring 2 10 s = take 8 (drop 2 s)"
proof (cases "length s \<le> 2")
  case True
  then show ?thesis by (simp add: substring_def Let_def)
next
  case False
  then show ?thesis by (cases "length s \<le> 10") (auto simp add: substring_def Let_def)
qed

lemma set_substring_2_10: "set (substring 2 10 s) \<subseteq> set (drop 2 s)"
  by (simp add: substring_2_10 set_take_subset)

lemma toUpperChar_digit: "c \<in> set digits \<Longrightarrow> toUpperChar c = c"
  unfolding toUpperChar_def digits_def lower_def upper_def by (elim disjE | simp)+

lemma toUpperChar_lower: "c \<in> set lower \<Longrightarrow> toUpperChar c \<in> set upper"
  unfolding toUpperChar_def lower_def upper_def by (elim disjE | simp)+

lemma toUpperChar_base36:
  "c \<in> set (digits @ lower) \<Longrightarrow> toUpperChar c \<in> set (digits @ upper)"
  using toUpperChar_digit [of c] toUpperChar_lower [of c] by auto

lemma backup_code_length: "length (backup_code r) \<le> 8"
  by (simp add: backup_code_def toUpperCase_def substring_2_10)

lemma backup_code_alphabet:
  assumes "is_radix36 r"
  shows "set (backup_code r) \<subseteq> set (digits @ upper)"
proof -
  have "set (drop 2 r) \<subseteq> set (digits @ lower)"
    using assms by (auto simp: is_radix36_def list_all_iff)
  then have "set (substring 2 10 r) \<subseteq> set (digits @ lower)"
    using set_substring_2_10 [of r] by blast
  then show ?thesis
    using toUpperChar_base36 by (auto simp: backup_code_def toUpperCase_def)
qed

lemma generateBackupCodes_unrolled:
  "generateBackupCodes rnd =
     [backup_code (rnd 0), backup_code (rnd 1), backup_code (rnd 2), backup_code (rnd 3),
      backup_code (rnd 4), backup_code (rnd 5), backup_code (rnd 6), backup_code (rnd 7)]"
proof -
  have "[0..<8] = [0, 1, 2, 3, 4, 5, 6, 7::nat]"
    by (simp add: upt_rec)
  then show ?thesis
    by (simp add: generateBackupCodes_map)
qed

lemma backup_code_half: "backup_code ''0.i'' = ''I''"
  by (simp add: backup_code_def substring_2_10 toUpperCase_def toUpperChar_def lower_def upper_def)

lemma backup_code_zero: "backup_code ''0'' = ''''"
  by (simp add: backup_code_def substring_2_10 toUpperCase_def)

lemma is_radix36_half: "is_radix36 ''0.i''"
  by (simp add: is_radix36_def digits_def lower_def)

section \<open>Helper lemmas on the component\<close>

lemmas storage_defs = request_def select_is_enabled_def upsert_secret_def update_where_def
lemmas effect_defs = add_toast_def console_error_def
lemmas example_defs = alice_def unenrolled_row_def pending_row_def enabled_row_def mounted_def
  half_codes_def

lemma all_digits_000000: "all_digits ''000000''"
  by (simp add: all_digits_def digits_def)
lemma all_digits_111111: "all_digits ''111111''"
  by (simp add: all_digits_def digits_def)
lemma all_digits_123456: "all_digits ''123456''"
  by (simp add: all_digits_def digits_def)

lemma generateBackupCodes_half: "generateBackupCodes (\<lambda>_. ''0.i'') = half_codes"
  by (simp add: generateBackupCodes_unrolled backup_code_half half_codes_def)

text \<open>The outcomes of \<open>verifyAndEnable\<close>.\<close>

lemma verifyAndEnable_success:
  assumes "length (verificationCode w) = 6" and "all_digits (verificationCode w)"
  shows "verifyAndEnable (Some u) rnd Healthy w =
           w\<lparr>user_2fa := (case user_2fa w (uid u) of
                             None \<Rightarrow> user_2fa w
                           | Some r \<Rightarrow> (user_2fa w)(uid u \<mapsto>
                                r\<lparr>is_enabled := True, backup_codes := generateBackupCodes rnd\<rparr>)),
              isEnabled := True, backupCodes := generateBackupCodes rnd,
              showSetup := False, verificationCode := [],
              toasts := toasts w @ [enabled_toast]\<rparr>"
proof -
  from assms have "verificationCode w \<noteq> []" by auto
  with assms show ?thesis
    by (simp add: verifyAndEnable_def verifyAndEnable_try_def storage_defs effect_defs
        enabled_toast_def Let_def)
qed

lemma verifyAndEnable_bad_code:
  assumes "length (verificationCode w) \<noteq> 6 \<or> \<not> all_digits (verificationCode w)"
      and "verificationCode w \<noteq> []"
  shows "verifyAndEnable (Some u) rnd f w =
           w\<lparr>toasts := toasts w @ [verification_failed ''Please enter a valid 6-digit code'']\<rparr>"
  using assms
  by (simp add: verifyAndEnable_def verifyAndEnable_try_def effect_defs verification_failed_def)

lemma verifyAndEnable_storage_error:
  assumes "length (verificationCode w) = 6" and "all_digits (verificationCode w)"
      and "f = Fails e \<or> f = Throws e"
  shows "verifyAndEnable (Some u) rnd f w = w\<lparr>toasts := toasts w @ [verification_failed e]\<rparr>"
proof -
  from assms have "verificationCode w \<noteq> []" by auto
  with assms show ?thesis
    by (auto simp add: verifyAndEnable_def verifyAndEnable_try_def storage_defs effect_defs
        verification_failed_def Let_def)
qed

lemma verifyAndEnable_idle:
  "usr = None \<or> verificationCode w = [] \<Longrightarrow> verifyAndEnable usr rnd f w = w"
  by (auto simp add: verifyAndEnable_def split: option.splits)

lemma verifyAndEnable_table_on_failure:
  assumes "length (verificationCode w) \<noteq> 6 \<or> \<not> all_digits (verificationCode w) \<or> f \<noteq> Healthy"
  shows "user_2fa (verifyAndEnable usr rnd f w) = user_2fa w
       \<and> isEnabled (verifyAndEnable usr rnd f w) = isEnabled w
       \<and> backupCodes (verifyAndEnable usr rnd f w) = backupCodes w"
  using assms
  by (cases f)
     (auto simp add: verifyAndEnable_def verifyAndEnable_try_def storage_defs effect_defs Let_def
           split: option.splits)

text \<open>The outcomes of the other three operations, and the table after each operation.\<close>

lemma checkTwoFactorStatus_read:
  "checkTwoFactorStatus (Some u) Healthy w =
     w\<lparr>isEnabled := protected (user_2fa w) (uid u), loading := False\<rparr>"
  by (simp add: checkTwoFactorStatus_def storage_defs protected_def Let_def split: option.splits)

lemma checkTwoFactorStatus_error:
  "f = Fails e \<or> f = Throws e \<Longrightarrow>
   checkTwoFactorStatus (Some u) f w =
     w\<lparr>console := console w @ [(''Error checking 2FA status:'', e)], loading := False\<rparr>"
  by (auto simp add: checkTwoFactorStatus_def storage_defs effect_defs Let_def)

lemma checkTwoFactorStatus_table: "user_2fa (checkTwoFactorStatus usr f w) = user_2fa w"
  by (cases f)
     (auto simp add: checkTwoFactorStatus_def storage_defs effect_defs Let_def
           split: option.splits)

lemma enableTwoFactor_table:
  "user_2fa (enableTwoFactor usr rnd f w) =
     (case usr of
        None \<Rightarrow> user_2fa w
      | Some u \<Rightarrow>
          if f = Healthy
          then (user_2fa w)(uid u \<mapsto>
                 (case user_2fa w (uid u) of
                    None \<Rightarrow> \<lparr>secret = Some (generateSecret rnd), is_enabled = False,
                              backup_codes = []\<rparr>
                  | Some r \<Rightarrow> r\<lparr>secret := Some (generateSecret rnd), is_enabled := False\<rparr>))
          else user_2fa w)"
  by (cases f)
     (auto simp add: enableTwoFactor_def storage_defs effect_defs Let_def split: option.splits)

lemma disableTwoFactor_table:
  "user_2fa (disableTwoFactor usr f w) =
     (case usr of
        None \<Rightarrow> user_2fa w
      | Some u \<Rightarrow>
          if f = Healthy
          then (case user_2fa w (uid u) of
                  None \<Rightarrow> user_2fa w
                | Some r \<Rightarrow> (user_2fa w)(uid u \<mapsto> r\<lparr>is_enabled := False\<rparr>))
          else user_2fa w)"
  by (cases f)
     (auto simp add: disableTwoFactor_def storage_defs effect_defs Let_def split: option.splits)

lemma disableTwoFactor_component:
  "isEnabled (disableTwoFactor (Some u) Healthy w) = False
   \<and> backupCodes (disableTwoFactor (Some u) Healthy w) = []"
  by (simp add: disableTwoFactor_def storage_defs effect_defs Let_def)

lemma verifyAndEnable_table:
  "user_2fa (verifyAndEnable usr rnd f w) =
     (case usr of
        None \<Rightarrow> user_2fa w
      | Some u \<Rightarrow>
          if f = Healthy \<and> length (verificationCode w) = 6 \<and> all_digits (verificationCode w)
          then (case user_2fa w (uid u) of
                  None \<Rightarrow> user_2fa w
                | Some r \<Rightarrow> (user_2fa w)(uid u \<mapsto>
                     r\<lparr>is_enabled := True, backup_codes := generateBackupCodes rnd\<rparr>))
          else user_2fa w)"
proof (cases usr)
  case None
  then show ?thesis by (simp add: verifyAndEnable_idle)
next
  case (Some u)
  show ?thesis
  proof (cases "f = Healthy \<and> length (verificationCode w) = 6 \<and> all_digits (verificationCode w)")
    case True
    with Some show ?thesis
      by (simp add: verifyAndEnable_success split: option.splits)
  next
    case False
    then have "length (verificationCode w) \<noteq> 6 \<or> \<not> all_digits (verificationCode w)
               \<or> f \<noteq> Healthy" by blast
    from verifyAndEnable_table_on_failure [OF this, of usr rnd]
    have "user_2fa (verifyAndEnable usr rnd f w) = user_2fa w" by simp
    with False Some show ?thesis by auto
  qed
qed

lemma generateBackupCodes_not_Nil: "generateBackupCodes rnd \<noteq> []"
  using length_generateBackupCodes [of rnd] by auto

lemma perform_table_invariant:
  assumes "table_invariant (user_2fa w)"
  shows "table_invariant (user_2fa (perform usr op w))"
proof (cases op)
  case (CheckStatus f)
  with assms show ?thesis by (simp add: checkTwoFactorStatus_table)
next
  case (StartEnrollment rnd f)
  with assms show ?thesis
    by (auto simp add: enableTwoFactor_table table_invariant_def enrolled_invariant_def
        record_invariant_def split: option.splits if_splits)
next
  case (TypeCode v)
  with assms show ?thesis by (simp add: onChange_verificationCode_def)
next
  case (ConfirmEnrollment rnd f)
  with assms show ?thesis
    by (auto simp add: verifyAndEnable_table table_invariant_def enrolled_invariant_def
        record_invariant_def generateBackupCodes_not_Nil split: option.splits if_splits)
next
  case (Disable f)
  with assms show ?thesis
    by (auto simp add: disableTwoFactor_table table_invariant_def enrolled_invariant_def
        record_invariant_def split: option.splits if_splits)
qed

lemma run_table_invariant:
  "table_invariant (user_2fa w) \<Longrightarrow> table_invariant (user_2fa (run steps w))"
proof (induction steps arbitrary: w)
  case Nil
  then show ?case by simp
next
  case (Cons step steps)
  obtain usr x where "step = (usr, x)" by (cases step)
  with Cons show ?case
    by (simp add: perform_table_invariant)
qed

section \<open>Backup codes: alphabet and length\<close>

text \<open>
  Claim C10. For every random stream, every code returned by \<open>generateBackupCodes\<close> has
  at most 8 characters and, the runtime rendering each draw in radix 36, is a string over
  the characters 0-9 and A-Z. A length of exactly 8 is not guaranteed: there is a stream
  of well-formed renderings for which a generated code is strictly shorter than 8
  characters (a draw of 0.5 is rendered \<^verbatim>\<open>0.i\<close> and gives the code \<^verbatim>\<open>I\<close>).
\<close>

theorem generateBackupCodes_alphabet_and_length:
  "(\<forall>c \<in> set (generateBackupCodes rnd). length c \<le> 8)
   \<and> ((\<forall>i<8. is_radix36 (rnd i)) \<longrightarrow>
        (\<forall>c \<in> set (generateBackupCodes rnd). set c \<subseteq> set (digits @ upper)))
   \<and> (\<exists>rnd'. (\<forall>i<8. is_radix36 (rnd' i)) \<and>
               (\<exists>c \<in> set (generateBackupCodes rnd'). length c < 8))"
proof (intro conjI)
  show "\<forall>c \<in> set (generateBackupCodes rnd). length c \<le> 8"
    by (auto simp: generateBackupCodes_map backup_code_length)
  show "(\<forall>i<8. is_radix36 (rnd i)) \<longrightarrow>
        (\<forall>c \<in> set (generateBackupCodes rnd). set c \<subseteq> set (digits @ upper))"
  proof (intro impI ballI)
    fix c
    assume wf: "\<forall>i<8. is_radix36 (rnd i)" and c: "c \<in> set (generateBackupCodes rnd)"
    from c obtain k where "k < 8" and "c = backup_code (rnd k)"
      by (auto simp: generateBackupCodes_map)
    with wf show "set c \<subseteq> set (digits @ upper)"
      using backup_code_alphabet [of "rnd k"] by simp
  qed
  have "(\<forall>i<8. is_radix36 ((\<lambda>_. ''0.i'') i)) \<and>
        (\<exists>c \<in> set (generateBackupCodes (\<lambda>_. ''0.i'')). length c < 8)"
    by (simp add: is_radix36_half generateBackupCodes_unrolled backup_code_half)
  then show "\<exists>rnd'. (\<forall>i<8. is_radix36 (rnd' i)) \<and>
               (\<exists>c \<in> set (generateBackupCodes rnd'). length c < 8)"
    by (rule exI [of _ "\<lambda>_. ''0.i''"])
qed

theorem generateBackupCodes_alphabet_and_length_witness:
  "is_radix36 ''0.i''
   \<and> generateBackupCodes (\<lambda>_. ''0.i'') = [''I'', ''I'', ''I'', ''I'', ''I'', ''I'', ''I'', ''I'']
   \<and> length ''I'' \<le> (8::nat)
   \<and> set ''I'' \<subseteq> set (digits @ upper)"
  using generateBackupCodes_alphabet_and_length [of "\<lambda>_. ''0.i''"]
  by (simp add: is_radix36_half generateBackupCodes_unrolled backup_code_half)

section \<open>Confirming an enrolment\<close>

subsection \<open>A failed verification changes nothing\<close>




subsection \<open>Which codes are accepted\<close>

text \<open>
  Against claim C1: for one stored secret and at one time, the two different codes
  \<^verbatim>\<open>000000\<close> and \<^verbatim>\<open>111111\<close> both enable the pending record, whereas at most one of them
  can equal the code derived from the secret and the time step. (The operation has no
  time among its inputs, and never reads the secret.)
\<close>

theorem verifyAndEnable_any_six_digits_counterexample:
  "spec_state (user_2fa (verifyAndEnable (Some alice) (\<lambda>_. ''0.i'') Healthy
        ((mounted [''u1'' \<mapsto> pending_row])\<lparr>verificationCode := ''000000''\<rparr>)) ''u1'') = Enabled
   \<and> spec_state (user_2fa (verifyAndEnable (Some alice) (\<lambda>_. ''0.i'') Healthy
        ((mounted [''u1'' \<mapsto> pending_row])\<lparr>verificationCode := ''111111''\<rparr>)) ''u1'') = Enabled
   \<and> ''000000'' \<noteq> ''111111''"
  by (simp add: verifyAndEnable_success all_digits_000000 all_digits_111111
      example_defs spec_state_def)

text \<open>
  Claim C1, as the code has it. For a signed-in user with a pending record, a submitted
  non-empty code and a storage service that answers: \<open>verifyAndEnable\<close> succeeds and
  takes the record to \<open>Enabled\<close> exactly when the submitted code is a string of six
  decimal digits, whatever the stored secret and the time; for any other string it fails
  with the "Verification failed" toast, and the table and the state
  \<open>PendingVerification\<close> remain.
\<close>

theorem verifyAndEnable_accepts_six_digits:
  fixes u rnd w r
  defines "w' \<equiv> verifyAndEnable (Some u) rnd Healthy w"
  assumes pending: "user_2fa w (uid u) = Some r" "spec_state (Some r) = PendingVerification"
      and submitted: "verificationCode w \<noteq> []"
  shows "(if length (verificationCode w) = 6 \<and> all_digits (verificationCode w)
          then spec_state (user_2fa w' (uid u)) = Enabled
             \<and> isEnabled w'
             \<and> toasts w' = toasts w @ [enabled_toast]
          else user_2fa w' = user_2fa w
             \<and> spec_state (user_2fa w' (uid u)) = PendingVerification
             \<and> toasts w' = toasts w @ [verification_failed ''Please enter a valid 6-digit code''])"
proof (cases "length (verificationCode w) = 6 \<and> all_digits (verificationCode w)")
  case True
  from pending have "secret r \<noteq> None"
    by (auto simp: spec_state_def split: if_splits)
  with True pending show ?thesis
    by (simp add: w'_def verifyAndEnable_success spec_state_def)
next
  case False
  then have "length (verificationCode w) \<noteq> 6 \<or> \<not> all_digits (verificationCode w)" by simp
  from verifyAndEnable_bad_code [OF this submitted, of u rnd Healthy] False pending
  show ?thesis
    by (simp add: w'_def)
qed

theorem verifyAndEnable_accepts_six_digits_witness:
  "user_2fa ((mounted [''u1'' \<mapsto> pending_row])\<lparr>verificationCode := ''000000''\<rparr>) (uid alice)
     = Some pending_row
   \<and> spec_state (Some pending_row) = PendingVerification
   \<and> verificationCode ((mounted [''u1'' \<mapsto> pending_row])\<lparr>verificationCode := ''000000''\<rparr>) \<noteq> []
   \<and> spec_state (user_2fa (verifyAndEnable (Some alice) (\<lambda>_. ''0.i'') Healthy
        ((mounted [''u1'' \<mapsto> pending_row])\<lparr>verificationCode := ''000000''\<rparr>)) (uid alice)) = Enabled
   \<and> toasts (verifyAndEnable (Some alice) (\<lambda>_. ''0.i'') Healthy
        ((mounted [''u1'' \<mapsto> pending_row])\<lparr>verificationCode := ''000000''\<rparr>)) = [enabled_toast]"
  using verifyAndEnable_accepts_six_digits
          [of "(mounted [''u1'' \<mapsto> pending_row])\<lparr>verificationCode := ''000000''\<rparr>"
              alice pending_row "\<lambda>_. ''0.i''"]
  by (simp add: example_defs spec_state_def all_digits_000000)


subsection \<open>No check of the prior state\<close>

text \<open>
  Against claim C3: on a record that is \<open>Enabled\<close>, \<open>verifyAndEnable\<close> with a six-digit
  code does not fail; it reports success and replaces the stored backup codes.
\<close>

theorem verifyAndEnable_from_enabled_counterexample:
  "spec_state (user_2fa ((mounted [''u1'' \<mapsto> enabled_row])\<lparr>verificationCode := ''123456''\<rparr>) ''u1'')
     = Enabled
   \<and> user_2fa (verifyAndEnable (Some alice) (\<lambda>_. ''0.i'') Healthy
        ((mounted [''u1'' \<mapsto> enabled_row])\<lparr>verificationCode := ''123456''\<rparr>)) ''u1''
     = Some (enabled_row\<lparr>backup_codes := half_codes\<rparr>)
   \<and> enabled_row\<lparr>backup_codes := half_codes\<rparr> \<noteq> enabled_row
   \<and> toasts (verifyAndEnable (Some alice) (\<lambda>_. ''0.i'') Healthy
        ((mounted [''u1'' \<mapsto> enabled_row])\<lparr>verificationCode := ''123456''\<rparr>)) = [enabled_toast]"
  by (simp add: verifyAndEnable_success all_digits_123456 generateBackupCodes_half
      example_defs spec_state_def)

text \<open>
  Claim C3, as the code has it. \<open>verifyAndEnable\<close> has no check of the prior state: in
  every state, with a six-digit code and a storage service that answers, it reports
  success and sets the component's \<open>isEnabled\<close> flag. The persisted table is left
  unchanged when the user has no record; a record that exists, in whatever state, gets
  \<open>is_enabled = true\<close> and the newly generated backup codes.
\<close>

theorem verifyAndEnable_no_state_check:
  fixes u rnd w
  defines "w' \<equiv> verifyAndEnable (Some u) rnd Healthy w"
  assumes "length (verificationCode w) = 6" and "all_digits (verificationCode w)"
  shows "toasts w' = toasts w @ [enabled_toast]
       \<and> isEnabled w'
       \<and> (case user_2fa w (uid u) of
            None \<Rightarrow> user_2fa w' = user_2fa w
          | Some r \<Rightarrow> user_2fa w' = (user_2fa w)(uid u \<mapsto>
                        r\<lparr>is_enabled := True, backup_codes := generateBackupCodes rnd\<rparr>))"
  using assms(2,3)
  by (simp add: w'_def verifyAndEnable_success split: option.splits)

theorem verifyAndEnable_no_state_check_witness:
  "length (verificationCode ((mounted Map.empty)\<lparr>verificationCode := ''123456''\<rparr>)) = 6
   \<and> all_digits (verificationCode ((mounted Map.empty)\<lparr>verificationCode := ''123456''\<rparr>))
   \<and> spec_state (user_2fa ((mounted Map.empty)\<lparr>verificationCode := ''123456''\<rparr>) ''u1'') = Disabled
   \<and> toasts (verifyAndEnable (Some alice) (\<lambda>_. ''0.i'') Healthy
        ((mounted Map.empty)\<lparr>verificationCode := ''123456''\<rparr>)) = [enabled_toast]
   \<and> isEnabled (verifyAndEnable (Some alice) (\<lambda>_. ''0.i'') Healthy
        ((mounted Map.empty)\<lparr>verificationCode := ''123456''\<rparr>))
   \<and> user_2fa (verifyAndEnable (Some alice) (\<lambda>_. ''0.i'') Healthy
        ((mounted Map.empty)\<lparr>verificationCode := ''123456''\<rparr>)) = Map.empty"
  using verifyAndEnable_no_state_check
          [of "(mounted Map.empty)\<lparr>verificationCode := ''123456''\<rparr>" alice "\<lambda>_. ''0.i''"]
  by (simp add: mounted_def alice_def all_digits_123456 spec_state_def)

subsection \<open>The backup codes of a successful confirmation\<close>

text \<open>
  Against claim C7: when every draw of the random source is 0.5, the confirmation
  succeeds and its eight backup codes are all \<^verbatim>\<open>I\<close>, so they are not pairwise distinct.
\<close>

theorem backup_codes_repeat_counterexample:
  "toasts (verifyAndEnable (Some alice) (\<lambda>_. ''0.i'') Healthy
        ((mounted [''u1'' \<mapsto> pending_row])\<lparr>verificationCode := ''123456''\<rparr>)) = [enabled_toast]
   \<and> backupCodes (verifyAndEnable (Some alice) (\<lambda>_. ''0.i'') Healthy
        ((mounted [''u1'' \<mapsto> pending_row])\<lparr>verificationCode := ''123456''\<rparr>))
       = [''I'', ''I'', ''I'', ''I'', ''I'', ''I'', ''I'', ''I'']
   \<and> \<not> distinct (backupCodes (verifyAndEnable (Some alice) (\<lambda>_. ''0.i'') Healthy
        ((mounted [''u1'' \<mapsto> pending_row])\<lparr>verificationCode := ''123456''\<rparr>)))"
  by (simp add: verifyAndEnable_success all_digits_123456 generateBackupCodes_half
      example_defs)

text \<open>
  Claim C7, as the code has it. On every successful \<open>verifyAndEnable\<close> exactly 8 backup
  codes are generated and handed to the component for display, and the same 8 codes are
  stored in the user's record when there is one. Nothing makes them distinct: they are
  pairwise distinct exactly when the eight draws give eight different codes.
\<close>

theorem verifyAndEnable_eight_codes:
  fixes u rnd w
  defines "w' \<equiv> verifyAndEnable (Some u) rnd Healthy w"
  assumes "length (verificationCode w) = 6" and "all_digits (verificationCode w)"
  shows "length (backupCodes w') = 8
       \<and> backupCodes w' = generateBackupCodes rnd
       \<and> map_option backup_codes (user_2fa w' (uid u))
           = map_option (\<lambda>r. backupCodes w') (user_2fa w (uid u))
       \<and> distinct (backupCodes w') = inj_on (\<lambda>i. backup_code (rnd i)) {0..<8}"
  using assms(2,3)
  by (simp add: w'_def verifyAndEnable_success length_generateBackupCodes
      generateBackupCodes_map distinct_map split: option.splits)

theorem verifyAndEnable_eight_codes_witness:
  "length (verificationCode ((mounted [''u1'' \<mapsto> pending_row])\<lparr>verificationCode := ''123456''\<rparr>)) = 6
   \<and> all_digits (verificationCode ((mounted [''u1'' \<mapsto> pending_row])\<lparr>verificationCode := ''123456''\<rparr>))
   \<and> length (backupCodes (verifyAndEnable (Some alice) (\<lambda>_. ''0.i'') Healthy
        ((mounted [''u1'' \<mapsto> pending_row])\<lparr>verificationCode := ''123456''\<rparr>))) = 8
   \<and> map_option backup_codes (user_2fa (verifyAndEnable (Some alice) (\<lambda>_. ''0.i'') Healthy
        ((mounted [''u1'' \<mapsto> pending_row])\<lparr>verificationCode := ''123456''\<rparr>)) ''u1'')
       = Some half_codes"
  using verifyAndEnable_eight_codes
          [of "(mounted [''u1'' \<mapsto> pending_row])\<lparr>verificationCode := ''123456''\<rparr>" alice
              "\<lambda>_. ''0.i''"]
  by (simp add: verifyAndEnable_success mounted_def alice_def all_digits_123456
      generateBackupCodes_half)

section \<open>Reading the status\<close>

subsection \<open>What the status distinguishes\<close>

text \<open>
  Against claim C2: \<open>checkTwoFactorStatus\<close> reads \<open>is_enabled\<close> only. For a user with no
  record (\<open>Disabled\<close>) and for one with a pending record (\<open>PendingVerification\<close>) it
  leaves the component in the same state, so it does not tell the two apart.
\<close>

theorem checkTwoFactorStatus_two_valued_counterexample:
  "spec_state (user_2fa (mounted Map.empty) ''u1'') = Disabled
   \<and> spec_state (user_2fa (mounted [''u1'' \<mapsto> pending_row]) ''u1'') = PendingVerification
   \<and> (checkTwoFactorStatus (Some alice) Healthy (mounted [''u1'' \<mapsto> pending_row]))
        \<lparr>user_2fa := Map.empty\<rparr>
       = checkTwoFactorStatus (Some alice) Healthy (mounted Map.empty)"
  by (simp add: checkTwoFactorStatus_read example_defs spec_state_def protected_def)

text \<open>
  Claim C2, as the code has it. For every user, after \<open>enableTwoFactor\<close> has stored the
  secret and before any confirmation, the persisted record is one the specification reads
  as \<open>PendingVerification\<close>, and \<open>checkTwoFactorStatus\<close> reports not enabled, never
  enabled. In general a successful \<open>checkTwoFactorStatus\<close> reports a boolean: enabled
  exactly when a record exists with \<open>is_enabled = true\<close>, and not enabled otherwise,
  without telling \<open>Disabled\<close> from \<open>PendingVerification\<close>.
\<close>

theorem checkTwoFactorStatus_reports_is_enabled:
  fixes u rnd w
  defines "started \<equiv> enableTwoFactor (Some u) rnd Healthy w"
  shows "spec_state (user_2fa started (uid u)) = PendingVerification
       \<and> isEnabled (checkTwoFactorStatus (Some u) Healthy started) = False
       \<and> isEnabled (checkTwoFactorStatus (Some u) Healthy w)
           = (case user_2fa w (uid u) of None \<Rightarrow> False | Some r \<Rightarrow> is_enabled r)"
  by (simp add: started_def checkTwoFactorStatus_read enableTwoFactor_table protected_def
      spec_state_def split: option.splits)

theorem checkTwoFactorStatus_reports_is_enabled_witness:
  "spec_state (user_2fa (enableTwoFactor (Some alice) (\<lambda>_. 0) Healthy (mounted Map.empty)) ''u1'')
     = PendingVerification
   \<and> isEnabled (checkTwoFactorStatus (Some alice) Healthy
        (enableTwoFactor (Some alice) (\<lambda>_. 0) Healthy (mounted Map.empty))) = False
   \<and> isEnabled (checkTwoFactorStatus (Some alice) Healthy (mounted [''u1'' \<mapsto> enabled_row])) = True"
  using checkTwoFactorStatus_reports_is_enabled [of alice "\<lambda>_. 0" "mounted Map.empty"]
        checkTwoFactorStatus_reports_is_enabled [of alice "\<lambda>_. 0" "mounted [''u1'' \<mapsto> enabled_row]"]
  by (simp add: example_defs)

section \<open>Starting an enrolment\<close>

text \<open>
  Against claim C4: \<open>enableTwoFactor\<close> has no guard on the prior state, and on a record
  that is enabled its upsert writes \<open>is_enabled = false\<close>: the user was protected before
  the call and is not after it.
\<close>

theorem enableTwoFactor_from_enabled_counterexample:
  "protected (user_2fa (mounted [''u1'' \<mapsto> enabled_row])) ''u1''
   \<and> \<not> protected (user_2fa (enableTwoFactor (Some alice) (\<lambda>_. 0) Healthy
          (mounted [''u1'' \<mapsto> enabled_row]))) ''u1''"
  by (simp add: enableTwoFactor_table example_defs protected_def)

text \<open>
  Claim C4, as the code has it. \<open>enableTwoFactor\<close> never turns protection on: a user
  protected after the call was protected before it. So for every prior record state in
  which the user is not protected (no record, or \<open>is_enabled = false\<close>) the effective
  protection is the same after the call as before; and a call whose write fails leaves
  the table as it was.
\<close>

theorem enableTwoFactor_never_protects:
  fixes usr rnd f w k
  defines "w' \<equiv> enableTwoFactor usr rnd f w"
  shows "(protected (user_2fa w') k \<longrightarrow> protected (user_2fa w) k)
       \<and> (\<not> protected (user_2fa w) k \<longrightarrow> protected (user_2fa w') k = protected (user_2fa w) k)
       \<and> (f \<noteq> Healthy \<longrightarrow> user_2fa w' = user_2fa w)"
  by (auto simp add: w'_def enableTwoFactor_table protected_def split: option.splits if_splits)

theorem enableTwoFactor_never_protects_witness:
  "\<not> protected (user_2fa (mounted Map.empty)) ''u1''
   \<and> protected (user_2fa (enableTwoFactor (Some alice) (\<lambda>_. 0) Healthy (mounted Map.empty))) ''u1''
       = protected (user_2fa (mounted Map.empty)) ''u1''
   \<and> Fails ''offline'' \<noteq> Healthy
   \<and> user_2fa (enableTwoFactor (Some alice) (\<lambda>_. 0) (Fails ''offline'')
        (mounted [''u1'' \<mapsto> enabled_row])) = [''u1'' \<mapsto> enabled_row]"
  using enableTwoFactor_never_protects [of "Some alice" "\<lambda>_. 0" Healthy "mounted Map.empty" "''u1''"]
        enableTwoFactor_never_protects
          [of "Some alice" "\<lambda>_. 0" "Fails ''offline''" "mounted [''u1'' \<mapsto> enabled_row]" "''u1''"]
  by (simp add: mounted_def protected_def)

section \<open>Disabling\<close>

text \<open>
  Against claim C5: after \<open>disableTwoFactor\<close> on an enabled record the stored secret and
  the stored backup codes are still there, and the record is not one the specification
  reads as \<open>Disabled\<close>.
\<close>

theorem disableTwoFactor_keeps_secret_counterexample:
  "spec_state (user_2fa (mounted [''u1'' \<mapsto> enabled_row]) ''u1'') = Enabled
   \<and> user_2fa (disableTwoFactor (Some alice) Healthy (mounted [''u1'' \<mapsto> enabled_row])) ''u1''
       = Some (enabled_row\<lparr>is_enabled := False\<rparr>)
   \<and> secret (enabled_row\<lparr>is_enabled := False\<rparr>) \<noteq> None
   \<and> backup_codes (enabled_row\<lparr>is_enabled := False\<rparr>) \<noteq> []
   \<and> spec_state (user_2fa (disableTwoFactor (Some alice) Healthy
        (mounted [''u1'' \<mapsto> enabled_row])) ''u1'') \<noteq> Disabled"
  by (simp add: disableTwoFactor_table example_defs spec_state_def)

text \<open>
  Claim C5, as the code has it. \<open>disableTwoFactor\<close>, called from \<open>Enabled\<close> with a storage
  service that answers, persists \<open>is_enabled = false\<close> and nothing else: the stored secret
  and the stored backup codes are kept as they were. In the component the \<open>isEnabled\<close>
  flag and the displayed backup codes are cleared.
\<close>

theorem disableTwoFactor_clears_flag_only:
  fixes u w r
  defines "w' \<equiv> disableTwoFactor (Some u) Healthy w"
  assumes "user_2fa w (uid u) = Some r" and "spec_state (Some r) = Enabled"
  shows "user_2fa w' = (user_2fa w)(uid u \<mapsto> r\<lparr>is_enabled := False\<rparr>)
       \<and> map_option is_enabled (user_2fa w' (uid u)) = Some False
       \<and> map_option secret (user_2fa w' (uid u)) = Some (secret r)
       \<and> map_option backup_codes (user_2fa w' (uid u)) = Some (backup_codes r)
       \<and> isEnabled w' = False
       \<and> backupCodes w' = []"
  using assms(2) disableTwoFactor_component [of u w]
  by (simp add: w'_def disableTwoFactor_table)

theorem disableTwoFactor_clears_flag_only_witness:
  "user_2fa (mounted [''u1'' \<mapsto> enabled_row]) (uid alice) = Some enabled_row
   \<and> spec_state (Some enabled_row) = Enabled
   \<and> map_option is_enabled (user_2fa (disableTwoFactor (Some alice) Healthy
        (mounted [''u1'' \<mapsto> enabled_row])) (uid alice)) = Some False
   \<and> map_option secret (user_2fa (disableTwoFactor (Some alice) Healthy
        (mounted [''u1'' \<mapsto> enabled_row])) (uid alice)) = Some (secret enabled_row)
   \<and> map_option backup_codes (user_2fa (disableTwoFactor (Some alice) Healthy
        (mounted [''u1'' \<mapsto> enabled_row])) (uid alice)) = Some (backup_codes enabled_row)"
  using disableTwoFactor_clears_flag_only [of "mounted [''u1'' \<mapsto> enabled_row]" alice enabled_row]
  by (simp add: example_defs spec_state_def)

section \<open>A failed read of the status\<close>

text \<open>
  Against claim C9: the user's record is enabled and the read fails on the freshly
  mounted component. The component ends with \<open>isEnabled = false\<close> and no toast, the very
  state a successful read leaves for a user without record: it shows 2FA as disabled. The
  error is only a line on the console.
\<close>

theorem checkTwoFactorStatus_failed_read_counterexample:
  "protected (user_2fa (mounted [''u1'' \<mapsto> enabled_row])) ''u1''
   \<and> isEnabled (checkTwoFactorStatus (Some alice) (Fails ''offline'')
        (mounted [''u1'' \<mapsto> enabled_row])) = False
   \<and> toasts (checkTwoFactorStatus (Some alice) (Fails ''offline'')
        (mounted [''u1'' \<mapsto> enabled_row])) = []
   \<and> (checkTwoFactorStatus (Some alice) (Fails ''offline'') (mounted [''u1'' \<mapsto> enabled_row]))
        \<lparr>user_2fa := Map.empty, console := []\<rparr>
       = checkTwoFactorStatus (Some alice) Healthy (mounted Map.empty)"
  by (simp add: checkTwoFactorStatus_read checkTwoFactorStatus_error [of _ "''offline''"]
      example_defs protected_def)

text \<open>
  Claim C9, as the code has it. For every signed-in user, when the read fails with a
  storage error (answered or thrown), \<open>checkTwoFactorStatus\<close> writes the error to the
  console, clears \<open>loading\<close> and changes nothing else: the \<open>isEnabled\<close> flag keeps the
  value it had before the call, and no toast is shown.
\<close>

theorem checkTwoFactorStatus_failed_read_logs:
  "checkTwoFactorStatus (Some u) (Fails e) w =
     w\<lparr>console := console w @ [(''Error checking 2FA status:'', e)], loading := False\<rparr>
   \<and> checkTwoFactorStatus (Some u) (Throws e) w =
     w\<lparr>console := console w @ [(''Error checking 2FA status:'', e)], loading := False\<rparr>
   \<and> isEnabled (checkTwoFactorStatus (Some u) (Fails e) w) = isEnabled w
   \<and> isEnabled (checkTwoFactorStatus (Some u) (Throws e) w) = isEnabled w"
  by (simp add: checkTwoFactorStatus_error)

theorem checkTwoFactorStatus_failed_read_logs_witness:
  "checkTwoFactorStatus (Some alice) (Fails ''offline'') (mounted [''u1'' \<mapsto> enabled_row]) =
     (mounted [''u1'' \<mapsto> enabled_row])
       \<lparr>console := [(''Error checking 2FA status:'', ''offline'')], loading := False\<rparr>
   \<and> isEnabled (checkTwoFactorStatus (Some alice) (Fails ''offline'')
        (mounted [''u1'' \<mapsto> enabled_row])) = False"
  using checkTwoFactorStatus_failed_read_logs
          [of alice "''offline''" "mounted [''u1'' \<mapsto> enabled_row]"]
  by (simp add: mounted_def)


section \<open>The record invariant\<close>

text \<open>
  Against claim C6: a record without a secret and not enabled satisfies the record
  invariant; \<open>verifyAndEnable\<close> with a six-digit code enables it, and the record then has
  \<open>is_enabled = true\<close> with a null secret.
\<close>

theorem confirm_without_secret_counterexample:
  "record_invariant unenrolled_row
   \<and> user_2fa (verifyAndEnable (Some alice) (\<lambda>_. ''0.i'') Healthy
        ((mounted [''u1'' \<mapsto> unenrolled_row])\<lparr>verificationCode := ''123456''\<rparr>)) ''u1''
       = Some (unenrolled_row\<lparr>is_enabled := True, backup_codes := half_codes\<rparr>)
   \<and> \<not> record_invariant (unenrolled_row\<lparr>is_enabled := True, backup_codes := half_codes\<rparr>)"
  by (simp add: verifyAndEnable_success all_digits_123456 generateBackupCodes_half
      example_defs record_invariant_def)

text \<open>
  Claim C6, as the code has it. On a table in which every record has a secret and
  satisfies the record invariant (the empty table is one), every operation of the
  lifecycle (\<open>enableTwoFactor\<close>, \<open>verifyAndEnable\<close>, \<open>disableTwoFactor\<close>,
  \<open>checkTwoFactorStatus\<close>), for every user, random stream, submitted code and answer of
  the storage service, leaves a table of the same kind, and so does every run of them; in
  particular every record then satisfies the record invariant: \<open>is_enabled = true\<close>
  implies a non-null secret and a non-empty list of backup codes.
\<close>

theorem operations_preserve_invariant:
  assumes "table_invariant (user_2fa w)"
  shows "table_invariant (user_2fa (perform usr x w))
       \<and> table_invariant (user_2fa (run steps w))
       \<and> (\<forall>k r. user_2fa (run steps w) k = Some r \<longrightarrow> record_invariant r)"
  using perform_table_invariant [OF assms, of usr x] run_table_invariant [OF assms, of steps]
  by (simp add: table_invariant_def enrolled_invariant_def)

theorem operations_preserve_invariant_witness:
  "table_invariant (user_2fa (mounted Map.empty))
   \<and> table_invariant (user_2fa (run
        [(Some alice, StartEnrollment (\<lambda>_. 0) Healthy), (Some alice, TypeCode ''123456''),
         (Some alice, ConfirmEnrollment (\<lambda>_. ''0.i'') Healthy)] (mounted Map.empty)))
   \<and> user_2fa (run
        [(Some alice, StartEnrollment (\<lambda>_. 0) Healthy), (Some alice, TypeCode ''123456''),
         (Some alice, ConfirmEnrollment (\<lambda>_. ''0.i'') Healthy)] (mounted Map.empty)) ''u1''
       = Some \<lparr>secret = Some (generateSecret (\<lambda>_. 0)), is_enabled = True,
               backup_codes = half_codes\<rparr>
   \<and> record_invariant \<lparr>secret = Some (generateSecret (\<lambda>_. 0)), is_enabled = True,
        backup_codes = half_codes\<rparr>"
proof -
  let ?steps = "[(Some alice, StartEnrollment (\<lambda>_. 0) Healthy), (Some alice, TypeCode ''123456''),
         (Some alice, ConfirmEnrollment (\<lambda>_. ''0.i'') Healthy)]"
  have start: "table_invariant (user_2fa (mounted Map.empty))"
    by (simp add: table_invariant_def mounted_def)
  have typed: "onChange_verificationCode ''123456'' v = v\<lparr>verificationCode := ''123456''\<rparr>"
    for v
    by (simp add: onChange_verificationCode_def digits_def)
  have row: "user_2fa (run ?steps (mounted Map.empty)) ''u1''
       = Some \<lparr>secret = Some (generateSecret (\<lambda>_. 0)), is_enabled = True,
               backup_codes = half_codes\<rparr>"
    by (simp add: typed verifyAndEnable_success
        all_digits_123456 generateBackupCodes_half enableTwoFactor_table alice_def mounted_def)
  from operations_preserve_invariant [OF start, of "Some alice" "TypeCode []" ?steps] start row
  show ?thesis by simp
qed

end
